theory Spec2Isabelle
  imports Main
begin

section \<open>The evidence journal: data\<close>

text \<open>
  The journal command keeps, for each of the seven evidence types of the game, whether it
  was found, ruled out or neither, together with the number of evidences the difficulty
  provides, and lists the ghosts of a fixed table that are still possible.
\<close>

text \<open>\<^verbatim>\<open>EVIDENCE_IDS\<close>: the evidence types, in the order of the source's array.\<close>

datatype EvidenceID = Dots | Emf | Freezing | Orb | Writing | Box | Uv

definition EVIDENCE_IDS :: "EvidenceID list" where
  "EVIDENCE_IDS = [Dots, Emf, Freezing, Orb, Writing, Box, Uv]"

text \<open>
  The keys of the object \<^verbatim>\<open>Journal.evidences\<close>, in the order the object literal lists
  them. \<^verbatim>\<open>Object.entries\<close> and \<^verbatim>\<open>Object.values\<close> enumerate in this order, which
  is not the order of \<^verbatim>\<open>EVIDENCE_IDS\<close>.
\<close>

definition EVIDENCE_KEYS :: "EvidenceID list" where
  "EVIDENCE_KEYS = [Dots, Emf, Uv, Freezing, Orb, Writing, Box]"

definition MAX_EVIDENCES :: int where
  "MAX_EVIDENCES = 3"

definition MAX_BUTTONS_PER_ACTION_ROW :: int where
  "MAX_BUTTONS_PER_ACTION_ROW = 5"

definition MAX_ACTION_ROWS_PER_MESSAGE :: int where
  "MAX_ACTION_ROWS_PER_MESSAGE = 5"

datatype EvidenceState = PRESENT | INDEFINITE | ABSENT

text \<open>
  A JavaScript number as the journal can hold one: \<^verbatim>\<open>availableEvidences\<close> starts at 3
  and is only ever overwritten with a result of \<^verbatim>\<open>parseInt\<close>, which is an integer or
  \<^verbatim>\<open>NaN\<close>. Every comparison with \<^verbatim>\<open>NaN\<close> is false and arithmetic on it gives
  \<^verbatim>\<open>NaN\<close>.
\<close>

datatype number = Num int | NaN

fun num_sub :: "number \<Rightarrow> number \<Rightarrow> number" where
  "num_sub (Num a) (Num b) = Num (a - b)"
| "num_sub _ _ = NaN"

fun num_gt :: "number \<Rightarrow> number \<Rightarrow> bool" where
  "num_gt (Num a) (Num b) = (a > b)"
| "num_gt _ _ = False"

fun num_lt :: "number \<Rightarrow> number \<Rightarrow> bool" where
  "num_lt (Num a) (Num b) = (a < b)"
| "num_lt _ _ = False"

definition len :: "'a list \<Rightarrow> number" where
  "len xs = Num (int (length xs))"

text \<open>An entry of the table \<^verbatim>\<open>GHOSTS\<close>.\<close>

record Ghost =
  name :: string
  ghostEvidences :: "EvidenceID list"
  guaranteed :: "EvidenceID option"
  fake :: "EvidenceID option"

definition ghost :: "string \<Rightarrow> EvidenceID list \<Rightarrow> Ghost" where
  "ghost n es = \<lparr>name = n, ghostEvidences = es, guaranteed = None, fake = None\<rparr>"

text \<open>Two entries of the table that are named below.\<close>

definition Hantu :: Ghost where
  "Hantu = (ghost ''Hantu'' [Uv, Orb, Freezing])\<lparr>guaranteed := Some Freezing\<rparr>"

definition TheMimic :: Ghost where
  "TheMimic = (ghost ''The Mimic'' [Box, Uv, Freezing])\<lparr>fake := Some Orb\<rparr>"

definition GHOSTS :: "Ghost list" where
  "GHOSTS =
    [ghost ''Spirit'' [Emf, Box, Writing],
     ghost ''Wraith'' [Emf, Box, Dots],
     ghost ''Phantom'' [Box, Uv, Dots],
     ghost ''Poltergeist'' [Box, Uv, Writing],
     ghost ''Banshee'' [Uv, Orb, Dots],
     ghost ''Jinn'' [Emf, Uv, Freezing],
     ghost ''Mare'' [Box, Orb, Writing],
     ghost ''Revenant'' [Orb, Writing, Freezing],
     ghost ''Shade'' [Emf, Writing, Freezing],
     ghost ''Demon'' [Uv, Writing, Freezing],
     ghost ''Yurei'' [Orb, Freezing, Dots],
     ghost ''Oni'' [Emf, Freezing, Dots],
     ghost ''Yokai'' [Box, Orb, Dots],
     Hantu,
     (ghost ''Goryo'' [Emf, Uv, Dots])\<lparr>guaranteed := Some Dots\<rparr>,
     ghost ''Myling'' [Emf, Uv, Writing],
     ghost ''Onryo'' [Box, Orb, Freezing],
     ghost ''The Twins'' [Emf, Box, Freezing],
     ghost ''Raiju'' [Emf, Orb, Dots],
     (ghost ''Obake'' [Emf, Uv, Orb])\<lparr>guaranteed := Some Uv\<rparr>,
     TheMimic,
     (ghost ''Moroi'' [Box, Writing, Freezing])\<lparr>guaranteed := Some Box\<rparr>,
     (ghost ''Deogen'' [Box, Writing, Dots])\<lparr>guaranteed := Some Box\<rparr>,
     ghost ''Thaye'' [Orb, Writing, Dots]]"

section \<open>The journal\<close>

text \<open>
  \<^verbatim>\<open>class Journal\<close>. The object \<^verbatim>\<open>evidences\<close> always has the seven keys, so it
  is a total function.
\<close>

record Journal =
  evidences :: "EvidenceID \<Rightarrow> EvidenceState"
  availableEvidences :: number

text \<open>
  The constructor: every evidence defaults to \<^verbatim>\<open>INDEFINITE\<close>,
  \<^verbatim>\<open>Object.assign\<close> overwrites the given ones.
\<close>

definition initialState :: "EvidenceID \<Rightarrow> EvidenceState" where
  "initialState e = INDEFINITE"

definition Journal_new :: "(EvidenceID \<rightharpoonup> EvidenceState) \<Rightarrow> number \<Rightarrow> Journal" where
  "Journal_new states n =
     \<lparr>evidences = (\<lambda>e. case states e of None \<Rightarrow> initialState e | Some s \<Rightarrow> s),
      availableEvidences = n\<rparr>"

text \<open>\<^verbatim>\<open>new Journal()\<close>, with both defaults.\<close>

definition newJournal :: Journal where
  "newJournal = Journal_new Map.empty (Num 3)"

text \<open>Writing one entry of \<^verbatim>\<open>evidences\<close>, and the field \<^verbatim>\<open>availableEvidences\<close>.\<close>

definition setEvidence :: "EvidenceID \<Rightarrow> EvidenceState \<Rightarrow> Journal \<Rightarrow> Journal" where
  "setEvidence e s j = j\<lparr>evidences := (evidences j)(e := s)\<rparr>"

definition setAvailable :: "number \<Rightarrow> Journal \<Rightarrow> Journal" where
  "setAvailable n j = j\<lparr>availableEvidences := n\<rparr>"

subsection \<open>\<^verbatim>\<open>possibleGhosts\<close>\<close>

definition present :: "Journal \<Rightarrow> EvidenceID list" where
  "present j = filter (\<lambda>e. evidences j e = PRESENT) EVIDENCE_KEYS"

definition absent :: "Journal \<Rightarrow> EvidenceID list" where
  "absent j = filter (\<lambda>e. evidences j e = ABSENT) EVIDENCE_KEYS"

text \<open>\<^verbatim>\<open>_.difference(present, [fake])\<close>; without a fake evidence nothing is removed.\<close>

definition presentWithoutFake :: "Journal \<Rightarrow> Ghost \<Rightarrow> EvidenceID list" where
  "presentWithoutFake j g = filter (\<lambda>e. Some e \<noteq> fake g) (present j)"

definition hasEvidence :: "Ghost \<Rightarrow> EvidenceID \<Rightarrow> bool" where
  "hasEvidence g e = (e \<in> set (ghostEvidences g))"

text \<open>The five tests of the filter callback, each true when the ghost is discarded.\<close>

definition lacksFound :: "Journal \<Rightarrow> Ghost \<Rightarrow> bool" where
  "lacksFound j g = (\<not> list_all (hasEvidence g) (presentWithoutFake j g))"

definition tooManyFound :: "Journal \<Rightarrow> Ghost \<Rightarrow> bool" where
  "tooManyFound j g = num_gt (len (presentWithoutFake j g)) (availableEvidences j)"

definition tooManyAbsent :: "Journal \<Rightarrow> Ghost \<Rightarrow> bool" where
  "tooManyAbsent j g =
     num_gt (len (filter (hasEvidence g) (absent j)))
            (num_sub (Num MAX_EVIDENCES) (availableEvidences j))"

definition obtainableRemainingEvidences :: "Journal \<Rightarrow> number" where
  "obtainableRemainingEvidences j =
     num_sub (availableEvidences j)
             (len (filter (\<lambda>found. found = PRESENT) (map (evidences j) EVIDENCE_KEYS)))"

definition guaranteedUnobtainable :: "Journal \<Rightarrow> Ghost \<Rightarrow> bool" where
  "guaranteedUnobtainable j g =
     (case guaranteed g of
        None \<Rightarrow> False
      | Some e \<Rightarrow>
          (let isAbsent = (evidences j e = ABSENT);
               isPresent = (evidences j e = PRESENT)
           in isAbsent \<or> (\<not> isPresent \<and> num_lt (obtainableRemainingEvidences j) (Num 1))))"

definition fakeAbsent :: "Journal \<Rightarrow> Ghost \<Rightarrow> bool" where
  "fakeAbsent j g = (case fake g of None \<Rightarrow> False | Some e \<Rightarrow> e \<in> set (absent j))"

definition isPossible :: "Journal \<Rightarrow> Ghost \<Rightarrow> bool" where
  "isPossible j g =
     (if lacksFound j g then False
      else if tooManyFound j g then False
      else if tooManyAbsent j g then False
      else if guaranteedUnobtainable j g then False
      else if fakeAbsent j g then False
      else True)"

definition possibleGhosts :: "Journal \<Rightarrow> string list" where
  "possibleGhosts j = map name (filter (isPossible j) GHOSTS)"

subsection \<open>\<^verbatim>\<open>asComponents\<close>\<close>

datatype error =
    TypeError
  | TooManyRows
  | MakeEmbedBeforeInit
  | UpdateMessageBeforeInit
  | CanInteractBeforeInit
  | UnhandledRejection

datatype ButtonStyle = Primary | Secondary | Danger

text \<open>A select-menu option: label, description, value, and whether it is the default.\<close>

datatype SelectOption = SelectOption string string string bool

fun setDefault :: "bool \<Rightarrow> SelectOption \<Rightarrow> SelectOption" where
  "setDefault b (SelectOption l d v _) = SelectOption l d v b"

fun optionValue :: "SelectOption \<Rightarrow> string" where
  "optionValue (SelectOption _ _ v _) = v"

text \<open>
  A select menu has a custom id, a placeholder and options; a button a custom id, a label
  and a style. An action row is the list of its components.
\<close>

datatype Component =
    StringSelect string string "SelectOption list"
  | Button EvidenceID string ButtonStyle

type_synonym ActionRow = "Component list"

definition LABELS :: "EvidenceID \<Rightarrow> string" where
  "LABELS e = (case e of
       Dots \<Rightarrow> ''D.O.T.S Projector''
     | Emf \<Rightarrow> ''EMF Level 5''
     | Uv \<Rightarrow> ''Ultraviolet''
     | Freezing \<Rightarrow> ''Freezing Temperatures''
     | Orb \<Rightarrow> ''Ghost Orb''
     | Writing \<Rightarrow> ''Ghost Writing''
     | Box \<Rightarrow> ''Spirit Box'')"

definition evidenceCountOptions :: "SelectOption list" where
  "evidenceCountOptions =
     [SelectOption ''3 evidences'' ''The ghost can show up to three evidences.'' ''3'' False,
      SelectOption ''2 evidences'' ''The ghost can show up to two evidences.'' ''2'' False,
      SelectOption ''1 evidence'' ''The ghost can show up to one evidence.'' ''1'' False]"

text \<open>
  Reading an array at a number: an element only at an integer from 0 below the length,
  \<^verbatim>\<open>undefined\<close> everywhere else, and at \<^verbatim>\<open>NaN\<close>.
\<close>

fun arrayIndex :: "'a list \<Rightarrow> number \<Rightarrow> nat option" where
  "arrayIndex xs (Num k) = (if 0 \<le> k \<and> k < int (length xs) then Some (nat k) else None)"
| "arrayIndex xs NaN = None"

text \<open>\<^verbatim>\<open>_.chunk(array, size)\<close>: slices of \<^verbatim>\<open>size\<close> elements, none when the size is below 1.\<close>

function chunk :: "'a list \<Rightarrow> nat \<Rightarrow> 'a list list" where
  "chunk xs n = (if n = 0 \<or> xs = [] then [] else take n xs # chunk (drop n xs) n)"
  by pat_completeness auto
termination
  by (relation "measure (\<lambda>(xs, n). length xs)") auto

declare chunk.simps [simp del]

definition buttonStyle :: "EvidenceState \<Rightarrow> ButtonStyle" where
  "buttonStyle s = (if s = PRESENT then Primary else if s = INDEFINITE then Secondary else Danger)"

definition buttons :: "Journal \<Rightarrow> Component list" where
  "buttons j = map (\<lambda>e. Button e (LABELS e) (buttonStyle (evidences j e))) EVIDENCE_IDS"

text \<open>
  \<^verbatim>\<open>options[MAX_EVIDENCES - availableEvidences].setDefault(true)\<close> is a call on
  \<^verbatim>\<open>undefined\<close> when the index is not one of the three options: a \<^verbatim>\<open>TypeError\<close>.
\<close>

definition asComponents :: "Journal \<Rightarrow> error + ActionRow list" where
  "asComponents j =
     (case arrayIndex evidenceCountOptions (num_sub (Num MAX_EVIDENCES) (availableEvidences j)) of
        None \<Rightarrow> Inl TypeError
      | Some i \<Rightarrow>
          (let options = evidenceCountOptions[i := setDefault True (evidenceCountOptions ! i)];
               rows = [[StringSelect ''evidence_count'' ''Evidence count'' options]];
               buttonRows = chunk (buttons j) (nat MAX_BUTTONS_PER_ACTION_ROW);
               rows = rows @ buttonRows
           in if int (length rows) > MAX_ACTION_ROWS_PER_MESSAGE then Inl TooManyRows
              else Inr rows))"

section \<open>The command context\<close>

text \<open>
  \<^verbatim>\<open>parseInt\<close> of the language, on strings of bytes: leading ASCII white space is
  skipped, a sign and a hexadecimal prefix are read, then the longest run of digits;
  without a digit the result is \<^verbatim>\<open>NaN\<close>. (Exact below \<open>2 ^ 53\<close>, where the
  language's numbers hold every integer.)
\<close>

definition isWhiteSpace :: "char \<Rightarrow> bool" where
  "isWhiteSpace c = (c \<in> set [CHR '' '', CHR 0x09, CHR 0x0A, CHR 0x0B, CHR 0x0C, CHR 0x0D])"

definition digitValue :: "char \<Rightarrow> nat option" where
  "digitValue c =
     (let n = (of_char c :: nat) in
      if 48 \<le> n \<and> n \<le> 57 then Some (n - 48)
      else if 97 \<le> n \<and> n \<le> 122 then Some (n - 87)
      else if 65 \<le> n \<and> n \<le> 90 then Some (n - 55)
      else None)"

definition isDigit :: "nat \<Rightarrow> char \<Rightarrow> bool" where
  "isDigit radix c = (case digitValue c of None \<Rightarrow> False | Some d \<Rightarrow> d < radix)"

definition digitsValue :: "nat \<Rightarrow> string \<Rightarrow> nat" where
  "digitsValue radix ds =
     foldl (\<lambda>acc c. acc * radix + (case digitValue c of None \<Rightarrow> 0 | Some d \<Rightarrow> d)) 0 ds"

fun stripSign :: "string \<Rightarrow> int \<times> string" where
  "stripSign [] = (1, [])"
| "stripSign (c # r) =
     (if c = CHR ''-'' then (- 1, r) else if c = CHR ''+'' then (1, r) else (1, c # r))"

fun stripPrefix :: "string \<Rightarrow> nat \<times> string" where
  "stripPrefix (a # b # r) =
     (if a = CHR ''0'' \<and> (b = CHR ''x'' \<or> b = CHR ''X'') then (16, r) else (10, a # b # r))"
| "stripPrefix s = (10, s)"

definition parseInt :: "string \<Rightarrow> number" where
  "parseInt s =
     (let (sign, t) = stripSign (dropWhile isWhiteSpace s);
          (radix, u) = stripPrefix t;
          ds = takeWhile (isDigit radix) u
      in if ds = [] then NaN else Num (sign * int (digitsValue radix ds)))"

text \<open>\<^verbatim>\<open>parseInt(values[0])\<close>; of an empty array it is \<^verbatim>\<open>parseInt(undefined)\<close>.\<close>

definition parseFirst :: "string list \<Rightarrow> number" where
  "parseFirst vs = (case vs of [] \<Rightarrow> NaN | v # _ \<Rightarrow> parseInt v)"

subsection \<open>State, requests to the platform, results\<close>

text \<open>
  The private fields of \<^verbatim>\<open>CommandContext\<close>. \<open>journal\<close> is the field
  \<^verbatim>\<open>#evidences\<close>; \<open>message\<close> tells whether \<^verbatim>\<open>#message\<close> is set;
  \<open>collectors\<close> is \<open>None\<close> while \<^verbatim>\<open>#collectors\<close> is undefined, and then tells
  whether the collectors still collect; \<open>idleTimeout\<close> is the time in milliseconds at
  which the armed timer fires.
\<close>

record CommandContext =
  allowedUserIDs :: "string list option"
  journal :: "Journal option"
  message :: bool
  collectors :: "bool option"
  idleTimeout :: "nat option"
  terminated :: bool

datatype Color = Blurple | Red

text \<open>An embed: its colour and the name and value of its one field (title and description are fixed text).\<close>

datatype Embed = Embed Color string string

text \<open>What the context asks of the platform.\<close>

datatype Effect =
    ReplyEphemeral string
  | ReplyJournal Embed "ActionRow list"
  | UpdateJournal Embed "ActionRow list"
  | DeleteMessage

text \<open>How a request to the platform ends; the model takes it as an input.\<close>

datatype outcome = Resolved | Rejected

text \<open>
  A step returns the context it leaves, the requests it made, and the error it threw, if
  any: what was written before a throw stays written.
\<close>

type_synonym result = "CommandContext \<times> Effect list \<times> error option"

definition IDLE_TIME :: nat where
  "IDLE_TIME = 3600000"

definition ZWSP :: string where
  "ZWSP = [CHR 0xE2, CHR 0x80, CHR 0x8B]"

fun join :: "string \<Rightarrow> string list \<Rightarrow> string" where
  "join sep [] = []"
| "join sep [x] = x"
| "join sep (x # y # ys) = x @ sep @ join sep (y # ys)"

definition terminate :: "CommandContext \<Rightarrow> CommandContext \<times> Effect list" where
  "terminate ctx =
     (ctx\<lparr>idleTimeout := None, terminated := True,
          collectors := map_option (\<lambda>_. False) (collectors ctx)\<rparr>,
      if message ctx then [DeleteMessage] else [])"

definition refreshTimeout :: "nat \<Rightarrow> CommandContext \<Rightarrow> CommandContext" where
  "refreshTimeout now ctx = ctx\<lparr>idleTimeout := map_option (\<lambda>_. now + IDLE_TIME) (idleTimeout ctx)\<rparr>"

definition journalEmbed :: "Journal \<Rightarrow> Embed" where
  "journalEmbed j =
     (let possible = possibleGhosts j
      in if length possible > 0 then Embed Blurple ''Possible ghosts'' (join '', '' possible)
         else Embed Red ''No possible ghosts'' ZWSP)"

definition makeEmbed :: "CommandContext \<Rightarrow> CommandContext \<times> Effect list \<times> (error + Embed)" where
  "makeEmbed ctx =
     (case journal ctx of
        None \<Rightarrow> (fst (terminate ctx), snd (terminate ctx), Inl MakeEmbedBeforeInit)
      | Some j \<Rightarrow> (ctx, [], Inr (journalEmbed j)))"

text \<open>
  \<^verbatim>\<open>#updateMessage\<close>. The payload is built first, so an error thrown while building it
  leaves no update sent; an update the platform rejects ends in \<^verbatim>\<open>#terminate\<close>.
\<close>

definition updateMessage :: "CommandContext \<Rightarrow> outcome \<Rightarrow> result" where
  "updateMessage ctx update =
     (case journal ctx of
        None \<Rightarrow> (fst (terminate ctx), snd (terminate ctx), Some UpdateMessageBeforeInit)
      | Some j \<Rightarrow>
          (case makeEmbed ctx of
             (c, fx, Inl e) \<Rightarrow> (c, fx, Some e)
           | (c, fx, Inr emb) \<Rightarrow>
               (case asComponents j of
                  Inl e \<Rightarrow> (c, fx, Some e)
                | Inr rows \<Rightarrow>
                    (case update of
                       Resolved \<Rightarrow> (c, fx @ [UpdateJournal emb rows], None)
                     | Rejected \<Rightarrow>
                         (fst (terminate c),
                          fx @ [UpdateJournal emb rows] @ snd (terminate c), None)))))"

definition canInteract :: "CommandContext \<Rightarrow> string \<Rightarrow> CommandContext \<times> Effect list \<times> (error + bool)" where
  "canInteract ctx user =
     (case allowedUserIDs ctx of
        None \<Rightarrow> (fst (terminate ctx), snd (terminate ctx), Inl CanInteractBeforeInit)
      | Some ids \<Rightarrow> (ctx, [], Inr (user \<in> set ids)))"

definition interactionFilter :: "CommandContext \<Rightarrow> string \<Rightarrow> CommandContext \<times> Effect list \<times> (error + bool)" where
  "interactionFilter ctx user =
     (case canInteract ctx user of
        (c, fx, Inl e) \<Rightarrow> (c, fx, Inl e)
      | (c, fx, Inr allowed) \<Rightarrow>
          (if \<not> allowed
           then (c, fx @ [ReplyEphemeral ''You were not invited to use this journal.''], Inr False)
           else (c, fx, Inr True)))"

subsection \<open>The two handlers\<close>

text \<open>The three branches of the button handler.\<close>

definition nextState :: "EvidenceState \<Rightarrow> EvidenceState" where
  "nextState state =
     (if state = ABSENT then INDEFINITE
      else if state = INDEFINITE then PRESENT
      else ABSENT)"

definition toggle :: "EvidenceID \<Rightarrow> Journal \<Rightarrow> Journal" where
  "toggle customId j = setEvidence customId (nextState (evidences j customId)) j"

text \<open>
  The handlers are registered after the journal is created and write to that journal, so
  they are given for a context that has one.
\<close>

definition onButton :: "nat \<Rightarrow> CommandContext \<Rightarrow> EvidenceID \<Rightarrow> outcome \<Rightarrow> result" where
  "onButton now ctx customId update =
     (let c = refreshTimeout now ctx
      in updateMessage (c\<lparr>journal := map_option (toggle customId) (journal c)\<rparr>) update)"

definition onSelect :: "nat \<Rightarrow> CommandContext \<Rightarrow> string list \<Rightarrow> outcome \<Rightarrow> result" where
  "onSelect now ctx vs update =
     (let c = refreshTimeout now ctx
      in updateMessage (c\<lparr>journal := map_option (setAvailable (parseFirst vs)) (journal c)\<rparr>) update)"

text \<open>
  An interaction names its user and is a button press, with the button's custom id, or a
  choice in the select menu, with the chosen values.
\<close>

datatype Interaction =
    ButtonInteraction string EvidenceID
  | StringSelectInteraction string "string list"

fun user :: "Interaction \<Rightarrow> string" where
  "user (ButtonInteraction u _) = u"
| "user (StringSelectInteraction u _) = u"

text \<open>
  A collector that still collects passes an interaction to the filter and, when the filter
  accepts it, to its handler; a stopped collector, or none, does nothing.
\<close>

definition collect :: "nat \<Rightarrow> CommandContext \<Rightarrow> Interaction \<Rightarrow> outcome \<Rightarrow> result" where
  "collect now ctx i update =
     (if collectors ctx \<noteq> Some True then (ctx, [], None)
      else
        (case interactionFilter ctx (user i) of
           (c, fx, Inl e) \<Rightarrow> (c, fx, Some e)
         | (c, fx, Inr False) \<Rightarrow> (c, fx, None)
         | (c, fx, Inr True) \<Rightarrow>
             (case i of
                ButtonInteraction _ customId \<Rightarrow>
                  (case onButton now c customId update of (c', fx', e) \<Rightarrow> (c', fx @ fx', e))
              | StringSelectInteraction _ vs \<Rightarrow>
                  (case onSelect now c vs update of (c', fx', e) \<Rightarrow> (c', fx @ fx', e)))))"

subsection \<open>The constructor\<close>

definition emptyContext :: CommandContext where
  "emptyContext =
     \<lparr>allowedUserIDs = None, journal = None, message = False, collectors = None,
      idleTimeout = None, terminated = False\<rparr>"

text \<open>
  The constructor's asynchronous body, given the time, the invoking user, the invited
  users, whether the application may view the channel, and how the reply and the fetch of
  the replied message end. The handler given to \<^verbatim>\<open>catch\<close> after the journal reply
  evaluates \<^verbatim>\<open>this.#terminate.bind(this)\<close> and drops the bound function, so it does
  nothing.
\<close>

definition CommandContext_new ::
    "nat \<Rightarrow> string \<Rightarrow> string list \<Rightarrow> bool \<Rightarrow> outcome \<Rightarrow> outcome \<Rightarrow> result" where
  "CommandContext_new now invoker additionalUsers viewChannel reply fetch =
     (if \<not> viewChannel then
        (case reply of
           Rejected \<Rightarrow>
             (emptyContext, [ReplyEphemeral ''I don't have permission to view this channel.''],
              Some UnhandledRejection)
         | Resolved \<Rightarrow>
             (fst (terminate emptyContext),
              ReplyEphemeral ''I don't have permission to view this channel.''
                # snd (terminate emptyContext), None))
      else
        (let c1 = emptyContext\<lparr>allowedUserIDs := Some (invoker # additionalUsers),
                               journal := Some newJournal\<rparr>
         in case makeEmbed c1 of
              (c2, fx, Inl e) \<Rightarrow> (c2, fx, Some e)
            | (c2, fx, Inr emb) \<Rightarrow>
                (case asComponents newJournal of
                   Inl e \<Rightarrow> (c2, fx, Some e)
                 | Inr rows \<Rightarrow>
                     (let c3 = (if reply = Resolved \<and> fetch = Resolved
                                then c2\<lparr>message := True\<rparr> else c2)
                      in if \<not> message c3 then (c3, fx @ [ReplyJournal emb rows], None)
                         else (c3\<lparr>collectors := Some True,
                                   idleTimeout := Some (now + IDLE_TIME)\<rparr>,
                               fx @ [ReplyJournal emb rows], None)))))"

section \<open>Scenarios\<close>

text \<open>Journals and a predicate that the statements below are evaluated on.\<close>

definition emfFound :: Journal where
  "emfFound = setEvidence Emf PRESENT newJournal"

definition freezingAbsent :: Journal where
  "freezingAbsent = setEvidence Freezing ABSENT newJournal"

definition orbAbsent :: Journal where
  "orbAbsent = setEvidence Orb ABSENT newJournal"

definition orbFound :: Journal where
  "orbFound = setEvidence Orb PRESENT newJournal"

definition uvFoundOne :: Journal where
  "uvFoundOne = setAvailable (Num 1) (setEvidence Uv PRESENT newJournal)"

definition mimicAllFound :: Journal where
  "mimicAllFound =
     setEvidence Freezing PRESENT (setEvidence Uv PRESENT (setEvidence Box PRESENT orbFound))"

text \<open>
  The context after a successful start at time 0, for the user \<open>alice\<close> who invited
  \<open>bob\<close>.
\<close>

definition activeContext :: CommandContext where
  "activeContext = fst (CommandContext_new 0 ''alice'' [''bob''] True Resolved Resolved)"

text \<open>The evidence belongs to every ghost that the journal leaves possible.\<close>

definition belongsToEveryCandidate :: "EvidenceID \<Rightarrow> Journal \<Rightarrow> bool" where
  "belongsToEveryCandidate e j = list_all (\<lambda>g. hasEvidence g e) (filter (isPossible j) GHOSTS)"

section \<open>Properties of the ghost table\<close>

lemma distinct_names: "distinct (map name GHOSTS)"
  by (simp add: GHOSTS_def ghost_def Hantu_def TheMimic_def)

lemma name_possible_iff:
  assumes "g \<in> set GHOSTS"
  shows "name g \<in> set (possibleGhosts j) \<longleftrightarrow> isPossible j g"
proof
  assume "name g \<in> set (possibleGhosts j)"
  then obtain h where h: "h \<in> set GHOSTS" "isPossible j h" "name h = name g"
    by (auto simp: possibleGhosts_def)
  from distinct_names have "inj_on name (set GHOSTS)"
    by (simp add: distinct_map)
  with h assms have "h = g" by (auto dest: inj_onD)
  with h show "isPossible j g" by simp
next
  assume "isPossible j g"
  with assms show "name g \<in> set (possibleGhosts j)"
    by (auto simp: possibleGhosts_def)
qed

lemma Hantu_in_GHOSTS: "Hantu \<in> set GHOSTS"
  by (simp add: GHOSTS_def)

lemma TheMimic_in_GHOSTS: "TheMimic \<in> set GHOSTS"
  by (simp add: GHOSTS_def)

lemma guaranteed_no_fake:
  assumes "g \<in> set GHOSTS" and "guaranteed g = Some e"
  shows "fake g = None"
  using assms by (auto simp: GHOSTS_def ghost_def Hantu_def TheMimic_def)

text \<open>
  Claim C9. The table has 24 entries; each has exactly three evidences, all different; a
  guaranteed evidence is one of the entry's evidences; no entry has both a guaranteed and
  a fake evidence; the only fake evidence is the orb of The Mimic, which is not one of its
  three evidences.
\<close>

theorem catalog_invariant:
  "length GHOSTS = 24 \<and>
   (\<forall>g \<in> set GHOSTS.
      length (ghostEvidences g) = 3 \<and> distinct (ghostEvidences g) \<and>
      (\<forall>e. guaranteed g = Some e \<longrightarrow> e \<in> set (ghostEvidences g)) \<and>
      \<not> (guaranteed g \<noteq> None \<and> fake g \<noteq> None) \<and>
      (\<forall>e. fake g = Some e \<longrightarrow> g = TheMimic \<and> e = Orb \<and> Orb \<notin> set (ghostEvidences g))) \<and>
   TheMimic \<in> set GHOSTS \<and> fake TheMimic = Some Orb"
  by (simp add: GHOSTS_def ghost_def Hantu_def TheMimic_def)

theorem catalog_invariant_witness:
  "Hantu \<in> set GHOSTS \<and> guaranteed Hantu = Some Freezing \<and>
   length (ghostEvidences Hantu) = 3 \<and> Freezing \<in> set (ghostEvidences Hantu) \<and>
   fake Hantu = None \<and> TheMimic \<in> set GHOSTS \<and> fake TheMimic = Some Orb \<and>
   Orb \<notin> set (ghostEvidences TheMimic)"
proof -
  have h: "Hantu \<in> set GHOSTS" by (rule Hantu_in_GHOSTS)
  have m: "TheMimic \<in> set GHOSTS" by (rule TheMimic_in_GHOSTS)
  have g: "guaranteed Hantu = Some Freezing" by (simp add: Hantu_def ghost_def)
  from catalog_invariant h
  have 1: "length (ghostEvidences Hantu) = 3 \<and>
           (\<forall>e. guaranteed Hantu = Some e \<longrightarrow> e \<in> set (ghostEvidences Hantu)) \<and>
           \<not> (guaranteed Hantu \<noteq> None \<and> fake Hantu \<noteq> None)"
    by blast
  from catalog_invariant m
  have 2: "fake TheMimic = Some Orb \<and>
           (\<forall>e. fake TheMimic = Some e \<longrightarrow> Orb \<notin> set (ghostEvidences TheMimic))"
    by blast
  from 1 2 h m g show ?thesis by simp
qed

section \<open>Properties of \<^verbatim>\<open>possibleGhosts\<close>\<close>

lemma present_none:
  assumes "\<forall>e. evidences j e \<noteq> PRESENT"
  shows "present j = []"
  using assms by (simp add: present_def)

lemma absent_none:
  assumes "\<forall>e. evidences j e \<noteq> ABSENT"
  shows "absent j = []"
  using assms by (simp add: absent_def)

lemma count_present:
  "len (filter (\<lambda>found. found = PRESENT) (map (evidences j) EVIDENCE_KEYS)) = len (present j)"
  by (simp add: len_def present_def filter_map comp_def)

lemma all_unknown_possible:
  assumes u: "\<forall>e. evidences j e = INDEFINITE"
    and c: "availableEvidences j \<in> {Num 1, Num 2, Num 3}"
  shows "isPossible j g"
proof -
  from u have p: "present j = []" by (simp add: present_none)
  from u have a: "absent j = []" by (simp add: absent_none)
  from p have pw: "presentWithoutFake j g = []" by (simp add: presentWithoutFake_def)
  have 1: "\<not> lacksFound j g" using pw by (simp add: lacksFound_def)
  have 2: "\<not> tooManyFound j g" using pw c by (auto simp: tooManyFound_def len_def)
  have 3: "\<not> tooManyAbsent j g" using a c
    by (auto simp: tooManyAbsent_def len_def MAX_EVIDENCES_def)
  have 4: "\<not> guaranteedUnobtainable j g" using u p c
    by (auto simp: guaranteedUnobtainable_def obtainableRemainingEvidences_def count_present
          len_def split: option.splits)
  have 5: "\<not> fakeAbsent j g" using a by (simp add: fakeAbsent_def split: option.splits)
  from 1 2 3 4 5 show ?thesis by (simp add: isPossible_def)
qed

lemma names_of_GHOSTS:
  "map name GHOSTS =
     [''Spirit'', ''Wraith'', ''Phantom'', ''Poltergeist'', ''Banshee'', ''Jinn'', ''Mare'',
      ''Revenant'', ''Shade'', ''Demon'', ''Yurei'', ''Oni'', ''Yokai'', ''Hantu'', ''Goryo'',
      ''Myling'', ''Onryo'', ''The Twins'', ''Raiju'', ''Obake'', ''The Mimic'', ''Moroi'',
      ''Deogen'', ''Thaye'']"
  by (simp add: GHOSTS_def ghost_def Hantu_def TheMimic_def)

text \<open>
  Claim C3. When every evidence is \<^verbatim>\<open>INDEFINITE\<close> and the number of available
  evidences is 1, 2 or 3, \<^verbatim>\<open>possibleGhosts\<close> returns the names of all 24 ghosts, in
  the order of the table.
\<close>

theorem all_unknown_full_catalog:
  assumes "\<forall>e. evidences j e = INDEFINITE"
    and "availableEvidences j \<in> {Num 1, Num 2, Num 3}"
  shows "possibleGhosts j = map name GHOSTS \<and> length (possibleGhosts j) = 24 \<and>
         possibleGhosts j =
           [''Spirit'', ''Wraith'', ''Phantom'', ''Poltergeist'', ''Banshee'', ''Jinn'', ''Mare'',
            ''Revenant'', ''Shade'', ''Demon'', ''Yurei'', ''Oni'', ''Yokai'', ''Hantu'', ''Goryo'',
            ''Myling'', ''Onryo'', ''The Twins'', ''Raiju'', ''Obake'', ''The Mimic'', ''Moroi'',
            ''Deogen'', ''Thaye'']"
proof -
  from assms have "filter (isPossible j) GHOSTS = GHOSTS"
    by (simp add: all_unknown_possible)
  then have "possibleGhosts j = map name GHOSTS" by (simp add: possibleGhosts_def)
  then show ?thesis by (simp add: names_of_GHOSTS)
qed

theorem all_unknown_full_catalog_witness:
  "(\<forall>e. evidences (setAvailable (Num 1) newJournal) e = INDEFINITE) \<and>
   availableEvidences (setAvailable (Num 1) newJournal) \<in> {Num 1, Num 2, Num 3} \<and>
   possibleGhosts (setAvailable (Num 1) newJournal) = map name GHOSTS \<and>
   length (possibleGhosts (setAvailable (Num 1) newJournal)) = 24"
proof -
  have u: "\<forall>e. evidences (setAvailable (Num 1) newJournal) e = INDEFINITE"
    by (simp add: setAvailable_def newJournal_def Journal_new_def initialState_def)
  have c: "availableEvidences (setAvailable (Num 1) newJournal) \<in> {Num 1, Num 2, Num 3}"
    by (simp add: setAvailable_def)
  from all_unknown_full_catalog [OF u c] u c show ?thesis by blast
qed

text \<open>
  Claim C1. For an entry of the table with a guaranteed evidence: the ghost is discarded
  when that evidence is \<^verbatim>\<open>ABSENT\<close>; when it is not \<^verbatim>\<open>PRESENT\<close>, the test
  of the guaranteed evidence discards the ghost exactly when the evidence is
  \<^verbatim>\<open>ABSENT\<close> or the available evidences minus the number of found ones, the fake
  one left out, is below 1, and a ghost this test discards is not returned. So when the
  evidence is \<^verbatim>\<open>INDEFINITE\<close> and neither the membership test nor the count of absent
  evidences discards the ghost, it is left out of the result exactly when that difference
  is below 1. No such entry has a fake evidence, so the found evidences without the fake
  one are all the found ones, which the code counts. In particular Hantu is discarded when
  Freezing Temperatures is absent, three evidences are available and every other evidence
  is \<^verbatim>\<open>INDEFINITE\<close>.
\<close>

theorem guaranteed_evidence_check:
  assumes g: "g \<in> set GHOSTS" and e: "guaranteed g = Some e"
  shows "(evidences j e = ABSENT \<longrightarrow> name g \<notin> set (possibleGhosts j)) \<and>
         (guaranteedUnobtainable j g \<longrightarrow> name g \<notin> set (possibleGhosts j)) \<and>
         (evidences j e \<noteq> PRESENT \<longrightarrow>
            (guaranteedUnobtainable j g \<longleftrightarrow>
               evidences j e = ABSENT \<or>
               num_lt (num_sub (availableEvidences j) (len (presentWithoutFake j g))) (Num 1))) \<and>
         (evidences j e = INDEFINITE \<longrightarrow>
            (guaranteedUnobtainable j g \<longleftrightarrow>
               num_lt (num_sub (availableEvidences j) (len (presentWithoutFake j g))) (Num 1))) \<and>
         (evidences j e = INDEFINITE \<and> \<not> lacksFound j g \<and> \<not> tooManyAbsent j g \<longrightarrow>
            (name g \<notin> set (possibleGhosts j) \<longleftrightarrow>
               num_lt (num_sub (availableEvidences j) (len (presentWithoutFake j g))) (Num 1))) \<and>
         (evidences j e \<noteq> PRESENT \<longrightarrow>
            (name g \<notin> set (possibleGhosts j) \<longleftrightarrow>
               evidences j e = ABSENT \<or>
               num_lt (num_sub (availableEvidences j) (len (presentWithoutFake j g))) (Num 1) \<or>
               lacksFound j g \<or> tooManyAbsent j g)) \<and>
         presentWithoutFake j g = present j \<and>
         (availableEvidences j = Num 3 \<and> evidences j Freezing = ABSENT \<and>
          (\<forall>x. x \<noteq> Freezing \<longrightarrow> evidences j x = INDEFINITE) \<longrightarrow>
            ''Hantu'' \<notin> set (possibleGhosts j))"
proof -
  have hantu: "''Hantu'' \<notin> set (possibleGhosts j)" if "evidences j Freezing = ABSENT"
  proof -
    from that have "guaranteedUnobtainable j Hantu"
      by (simp add: guaranteedUnobtainable_def Hantu_def ghost_def)
    then have "\<not> isPossible j Hantu" by (simp add: isPossible_def)
    with name_possible_iff [OF Hantu_in_GHOSTS, of j] show ?thesis
      by (simp add: Hantu_def ghost_def)
  qed
  from g e have nf: "fake g = None" by (rule guaranteed_no_fake)
  then have pw: "presentWithoutFake j g = present j"
    by (simp add: presentWithoutFake_def)
  have fa: "\<not> fakeAbsent j g" using nf by (simp add: fakeAbsent_def)
  have gu: "guaranteedUnobtainable j g \<longleftrightarrow>
      evidences j e = ABSENT \<or>
      (evidences j e \<noteq> PRESENT \<and>
       num_lt (num_sub (availableEvidences j) (len (present j))) (Num 1))"
    using e by (simp add: guaranteedUnobtainable_def Let_def obtainableRemainingEvidences_def
        count_present)
  have tf: "tooManyFound j g \<Longrightarrow>
      num_lt (num_sub (availableEvidences j) (len (present j))) (Num 1)"
    unfolding tooManyFound_def pw len_def by (cases "availableEvidences j") auto
  have ip: "isPossible j g \<longleftrightarrow>
      \<not> lacksFound j g \<and> \<not> tooManyFound j g \<and> \<not> tooManyAbsent j g \<and>
      \<not> guaranteedUnobtainable j g"
    using fa by (simp add: isPossible_def)
  have nm: "name g \<in> set (possibleGhosts j) \<longleftrightarrow> isPossible j g"
    using g by (rule name_possible_iff)
  have 1: "evidences j e = ABSENT \<longrightarrow> name g \<notin> set (possibleGhosts j)"
    unfolding nm ip gu by blast
  have 2: "guaranteedUnobtainable j g \<longrightarrow> name g \<notin> set (possibleGhosts j)"
    unfolding nm ip by blast
  have 3: "evidences j e \<noteq> PRESENT \<longrightarrow>
            (guaranteedUnobtainable j g \<longleftrightarrow>
               evidences j e = ABSENT \<or>
               num_lt (num_sub (availableEvidences j) (len (presentWithoutFake j g))) (Num 1))"
    unfolding gu pw by blast
  have 4: "evidences j e = INDEFINITE \<longrightarrow>
            (guaranteedUnobtainable j g \<longleftrightarrow>
               num_lt (num_sub (availableEvidences j) (len (presentWithoutFake j g))) (Num 1))"
    unfolding gu pw by auto
  have 6: "evidences j e \<noteq> PRESENT \<longrightarrow>
           (name g \<notin> set (possibleGhosts j) \<longleftrightarrow>
              evidences j e = ABSENT \<or>
              num_lt (num_sub (availableEvidences j) (len (presentWithoutFake j g))) (Num 1) \<or>
              lacksFound j g \<or> tooManyAbsent j g)"
    unfolding nm ip gu pw using tf by blast
  have 5: "evidences j e = INDEFINITE \<and> \<not> lacksFound j g \<and> \<not> tooManyAbsent j g \<longrightarrow>
            (name g \<notin> set (possibleGhosts j) \<longleftrightarrow>
               num_lt (num_sub (availableEvidences j) (len (presentWithoutFake j g))) (Num 1))"
    using 6 by auto
  from 1 2 3 4 5 6 pw hantu show ?thesis by blast
qed

theorem guaranteed_evidence_check_witness:
  "Hantu \<in> set GHOSTS \<and> guaranteed Hantu = Some Freezing \<and>
   evidences freezingAbsent Freezing = ABSENT \<and> evidences freezingAbsent Freezing \<noteq> PRESENT \<and>
   availableEvidences freezingAbsent = Num 3 \<and>
   map (evidences freezingAbsent) EVIDENCE_KEYS =
     [INDEFINITE, INDEFINITE, INDEFINITE, ABSENT, INDEFINITE, INDEFINITE, INDEFINITE] \<and>
   ''Hantu'' \<notin> set (possibleGhosts freezingAbsent) \<and>
   evidences uvFoundOne Freezing = INDEFINITE \<and>
   \<not> lacksFound uvFoundOne Hantu \<and> \<not> tooManyAbsent uvFoundOne Hantu \<and>
   num_lt (num_sub (availableEvidences uvFoundOne) (len (presentWithoutFake uvFoundOne Hantu)))
     (Num 1) \<and>
   guaranteedUnobtainable uvFoundOne Hantu \<and>
   ''Hantu'' \<notin> set (possibleGhosts uvFoundOne) \<and>
   evidences newJournal Freezing = INDEFINITE \<and>
   \<not> lacksFound newJournal Hantu \<and> \<not> tooManyAbsent newJournal Hantu \<and>
   \<not> num_lt (num_sub (availableEvidences newJournal) (len (presentWithoutFake newJournal Hantu)))
       (Num 1) \<and>
   ''Hantu'' \<in> set (possibleGhosts newJournal)"
proof -
  have u: "availableEvidences freezingAbsent = Num 3 \<and>
           (\<forall>x. x \<noteq> Freezing \<longrightarrow> evidences freezingAbsent x = INDEFINITE)"
    by (simp add: freezingAbsent_def setEvidence_def newJournal_def Journal_new_def initialState_def)
  have g: "guaranteed Hantu = Some Freezing" by (simp add: Hantu_def ghost_def)
  have a: "evidences freezingAbsent Freezing = ABSENT"
    by (simp add: freezingAbsent_def setEvidence_def)
  have m: "map (evidences freezingAbsent) EVIDENCE_KEYS =
      [INDEFINITE, INDEFINITE, INDEFINITE, ABSENT, INDEFINITE, INDEFINITE, INDEFINITE]"
    by (simp add: freezingAbsent_def setEvidence_def newJournal_def Journal_new_def initialState_def
        EVIDENCE_KEYS_def)
  from guaranteed_evidence_check [OF Hantu_in_GHOSTS g, of freezingAbsent] a u
  have 1: "''Hantu'' \<notin> set (possibleGhosts freezingAbsent)" by blast
  have k: "evidences uvFoundOne Freezing = INDEFINITE \<and>
           \<not> lacksFound uvFoundOne Hantu \<and> \<not> tooManyAbsent uvFoundOne Hantu \<and>
           num_lt (num_sub (availableEvidences uvFoundOne)
                     (len (presentWithoutFake uvFoundOne Hantu))) (Num 1)"
    by code_simp
  have nh: "name Hantu = ''Hantu''" by (simp add: Hantu_def ghost_def)
  from guaranteed_evidence_check [OF Hantu_in_GHOSTS g, of uvFoundOne] k
  have 2: "guaranteedUnobtainable uvFoundOne Hantu \<and>
           ''Hantu'' \<notin> set (possibleGhosts uvFoundOne)" unfolding nh by blast
  have n: "evidences newJournal Freezing = INDEFINITE \<and>
           \<not> lacksFound newJournal Hantu \<and> \<not> tooManyAbsent newJournal Hantu \<and>
           \<not> num_lt (num_sub (availableEvidences newJournal)
                       (len (presentWithoutFake newJournal Hantu))) (Num 1)"
    by code_simp
  from guaranteed_evidence_check [OF Hantu_in_GHOSTS g, of newJournal] n
  have 3: "''Hantu'' \<in> set (possibleGhosts newJournal)" unfolding nh by blast
  from Hantu_in_GHOSTS g a u m 1 k 2 n 3 show ?thesis by simp
qed

text \<open>
  Claim C2. With three available evidences The Mimic is discarded when Ghost Orb is
  \<^verbatim>\<open>ABSENT\<close>; it stays when Ghost Orb is \<^verbatim>\<open>PRESENT\<close> and every other evidence
  is \<^verbatim>\<open>INDEFINITE\<close>. Ghost Orb is never among the found evidences that the
  membership and count tests of The Mimic read, so that The Mimic stays with its three
  evidences and Ghost Orb all found.
\<close>

theorem mimic_fake_orb:
  "(availableEvidences j = Num 3 \<and> evidences j Orb = ABSENT \<longrightarrow>
      ''The Mimic'' \<notin> set (possibleGhosts j)) \<and>
   (availableEvidences j = Num 3 \<and> evidences j Orb = PRESENT \<and>
    (\<forall>e. e \<noteq> Orb \<longrightarrow> evidences j e = INDEFINITE) \<longrightarrow>
      ''The Mimic'' \<in> set (possibleGhosts j) \<and> present j = [Orb] \<and>
      presentWithoutFake j TheMimic = []) \<and>
   Orb \<notin> set (presentWithoutFake j TheMimic) \<and>
   (availableEvidences j = Num 3 \<and> evidences j Orb = PRESENT \<and> evidences j Box = PRESENT \<and>
    evidences j Uv = PRESENT \<and> evidences j Freezing = PRESENT \<and>
    evidences j Dots = INDEFINITE \<and> evidences j Emf = INDEFINITE \<and>
    evidences j Writing = INDEFINITE \<longrightarrow>
      ''The Mimic'' \<in> set (possibleGhosts j) \<and> length (present j) = 4 \<and>
      length (presentWithoutFake j TheMimic) = 3)"
proof -
  have nm: "name TheMimic = ''The Mimic''" by (simp add: TheMimic_def ghost_def)
  have iff: "''The Mimic'' \<in> set (possibleGhosts j) \<longleftrightarrow> isPossible j TheMimic"
    using name_possible_iff [OF TheMimic_in_GHOSTS, of j] nm by simp
  have fk: "fake TheMimic = Some Orb" by (simp add: TheMimic_def ghost_def)
  have 1: "''The Mimic'' \<notin> set (possibleGhosts j)" if "evidences j Orb = ABSENT"
  proof -
    from that have "Orb \<in> set (absent j)" by (simp add: absent_def EVIDENCE_KEYS_def)
    then have "fakeAbsent j TheMimic" by (simp add: fakeAbsent_def fk)
    then have "\<not> isPossible j TheMimic" by (simp add: isPossible_def)
    with iff show ?thesis by simp
  qed
  have 2: "''The Mimic'' \<in> set (possibleGhosts j) \<and> present j = [Orb] \<and>
           presentWithoutFake j TheMimic = []"
    if c: "availableEvidences j = Num 3" and o: "evidences j Orb = PRESENT"
      and u: "\<forall>e. e \<noteq> Orb \<longrightarrow> evidences j e = INDEFINITE"
  proof -
    from o u have p: "present j = [Orb]" by (simp add: present_def EVIDENCE_KEYS_def)
    from o u have a: "absent j = []" by (simp add: absent_def EVIDENCE_KEYS_def)
    from p have pw: "presentWithoutFake j TheMimic = []"
      by (simp add: presentWithoutFake_def fk)
    have "isPossible j TheMimic"
      using pw a c
      by (simp add: isPossible_def lacksFound_def tooManyFound_def tooManyAbsent_def
          guaranteedUnobtainable_def fakeAbsent_def len_def MAX_EVIDENCES_def TheMimic_def
          ghost_def)
    with iff p pw show ?thesis by simp
  qed
  have 3: "Orb \<notin> set (presentWithoutFake j TheMimic)"
    by (simp add: presentWithoutFake_def fk)
  have 4: "''The Mimic'' \<in> set (possibleGhosts j) \<and> length (present j) = 4 \<and>
           length (presentWithoutFake j TheMimic) = 3"
    if c: "availableEvidences j = Num 3" and o: "evidences j Orb = PRESENT"
      "evidences j Box = PRESENT" "evidences j Uv = PRESENT" "evidences j Freezing = PRESENT"
      and u: "evidences j Dots = INDEFINITE" "evidences j Emf = INDEFINITE"
      "evidences j Writing = INDEFINITE"
  proof -
    from o u have p: "present j = [Uv, Freezing, Orb, Box]"
      by (simp add: present_def EVIDENCE_KEYS_def)
    from o u have a: "absent j = []" by (simp add: absent_def EVIDENCE_KEYS_def)
    from p have pw: "presentWithoutFake j TheMimic = [Uv, Freezing, Box]"
      by (simp add: presentWithoutFake_def fk)
    have "isPossible j TheMimic"
      using pw a c
      by (simp add: isPossible_def lacksFound_def tooManyFound_def tooManyAbsent_def
          guaranteedUnobtainable_def fakeAbsent_def len_def MAX_EVIDENCES_def TheMimic_def
          ghost_def hasEvidence_def)
    with iff p pw show ?thesis by simp
  qed
  from 1 2 3 4 show ?thesis by blast
qed

theorem mimic_fake_orb_witness:
  "availableEvidences orbAbsent = Num 3 \<and> evidences orbAbsent Orb = ABSENT \<and>
   ''The Mimic'' \<notin> set (possibleGhosts orbAbsent) \<and>
   availableEvidences orbFound = Num 3 \<and> evidences orbFound Orb = PRESENT \<and>
   map (evidences orbFound) EVIDENCE_KEYS =
     [INDEFINITE, INDEFINITE, INDEFINITE, INDEFINITE, PRESENT, INDEFINITE, INDEFINITE] \<and>
   ''The Mimic'' \<in> set (possibleGhosts orbFound) \<and>
   availableEvidences mimicAllFound = Num 3 \<and> evidences mimicAllFound Orb = PRESENT \<and>
   evidences mimicAllFound Box = PRESENT \<and> evidences mimicAllFound Uv = PRESENT \<and>
   evidences mimicAllFound Freezing = PRESENT \<and> evidences mimicAllFound Dots = INDEFINITE \<and>
   evidences mimicAllFound Emf = INDEFINITE \<and> evidences mimicAllFound Writing = INDEFINITE \<and>
   ''The Mimic'' \<in> set (possibleGhosts mimicAllFound)"
proof -
  have a: "availableEvidences orbAbsent = Num 3 \<and> evidences orbAbsent Orb = ABSENT"
    by (simp add: orbAbsent_def setEvidence_def newJournal_def Journal_new_def)
  have f: "availableEvidences orbFound = Num 3 \<and> evidences orbFound Orb = PRESENT \<and>
           (\<forall>e. e \<noteq> Orb \<longrightarrow> evidences orbFound e = INDEFINITE)"
    by (simp add: orbFound_def setEvidence_def newJournal_def Journal_new_def initialState_def)
  have m: "availableEvidences mimicAllFound = Num 3 \<and> evidences mimicAllFound Orb = PRESENT \<and>
     evidences mimicAllFound Box = PRESENT \<and> evidences mimicAllFound Uv = PRESENT \<and>
     evidences mimicAllFound Freezing = PRESENT \<and> evidences mimicAllFound Dots = INDEFINITE \<and>
     evidences mimicAllFound Emf = INDEFINITE \<and> evidences mimicAllFound Writing = INDEFINITE"
    by (simp add: mimicAllFound_def orbFound_def setEvidence_def newJournal_def Journal_new_def initialState_def)
  from mimic_fake_orb [of orbAbsent] a
  have 1: "''The Mimic'' \<notin> set (possibleGhosts orbAbsent)" by blast
  from mimic_fake_orb [of orbFound] f
  have 2: "''The Mimic'' \<in> set (possibleGhosts orbFound)" by blast
  from mimic_fake_orb [of mimicAllFound] m
  have 3: "''The Mimic'' \<in> set (possibleGhosts mimicAllFound)" by blast
  have k: "map (evidences orbFound) EVIDENCE_KEYS =
      [INDEFINITE, INDEFINITE, INDEFINITE, INDEFINITE, PRESENT, INDEFINITE, INDEFINITE]"
    by (simp add: orbFound_def setEvidence_def newJournal_def Journal_new_def initialState_def EVIDENCE_KEYS_def)
  from a f m k 1 2 3 show ?thesis by blast
qed

lemma filter_length_mono:
  assumes "\<And>x. x \<in> set xs \<Longrightarrow> P x \<Longrightarrow> Q x"
  shows "length (filter P xs) \<le> length (filter Q xs)"
  using assms by (induction xs) auto

lemma num_gt_mono: "num_gt (Num a) n \<Longrightarrow> a \<le> b \<Longrightarrow> num_gt (Num b) n"
  by (cases n) auto

lemma present_setEvidence_absent:
  assumes "evidences j e \<noteq> PRESENT"
  shows "present (setEvidence e ABSENT j) = present j"
  unfolding present_def setEvidence_def
  by (rule filter_cong) (use assms in auto)

lemma absent_setEvidence_absent:
  "set (absent j) \<subseteq> set (absent (setEvidence e ABSENT j))"
  by (auto simp: absent_def setEvidence_def)

lemma absent_count_setEvidence_absent:
  "length (filter P (absent j)) \<le> length (filter P (absent (setEvidence e ABSENT j)))"
  unfolding absent_def setEvidence_def filter_filter
  by (rule filter_length_mono) auto

lemma isPossible_setEvidence_absent:
  assumes np: "evidences j e \<noteq> PRESENT"
    and poss: "isPossible (setEvidence e ABSENT j) g"
  shows "isPossible j g"
proof -
  let ?j' = "setEvidence e ABSENT j"
  have av: "availableEvidences ?j' = availableEvidences j" by (simp add: setEvidence_def)
  have pr: "present ?j' = present j" using np by (rule present_setEvidence_absent)
  then have pw: "presentWithoutFake ?j' g = presentWithoutFake j g"
    by (simp add: presentWithoutFake_def)
  from poss have n: "\<not> lacksFound ?j' g" "\<not> tooManyFound ?j' g" "\<not> tooManyAbsent ?j' g"
      "\<not> guaranteedUnobtainable ?j' g" "\<not> fakeAbsent ?j' g"
    by (auto simp: isPossible_def split: if_splits)
  have 1: "\<not> lacksFound j g" using n(1) pw by (simp add: lacksFound_def)
  have 2: "\<not> tooManyFound j g" using n(2) pw av by (simp add: tooManyFound_def)
  have 3: "\<not> tooManyAbsent j g"
  proof
    assume "tooManyAbsent j g"
    then have "tooManyAbsent ?j' g"
      unfolding tooManyAbsent_def av len_def
      by (rule num_gt_mono) (simp add: absent_count_setEvidence_absent)
    with n(3) show False by simp
  qed
  have ob: "obtainableRemainingEvidences ?j' = obtainableRemainingEvidences j"
    by (simp add: obtainableRemainingEvidences_def count_present pr av)
  have 4: "\<not> guaranteedUnobtainable j g"
  proof
    assume g: "guaranteedUnobtainable j g"
    then obtain x where x: "guaranteed g = Some x"
      by (auto simp: guaranteedUnobtainable_def split: option.splits)
    have ev: "evidences ?j' x = (if x = e then ABSENT else evidences j x)"
      by (simp add: setEvidence_def)
    from g x have "evidences j x = ABSENT \<or>
        (evidences j x \<noteq> PRESENT \<and> num_lt (obtainableRemainingEvidences j) (Num 1))"
      by (simp add: guaranteedUnobtainable_def Let_def)
    with np have "evidences ?j' x = ABSENT \<or>
        (evidences ?j' x \<noteq> PRESENT \<and> num_lt (obtainableRemainingEvidences ?j') (Num 1))"
      unfolding ev ob by auto
    with x have "guaranteedUnobtainable ?j' g"
      by (simp add: guaranteedUnobtainable_def Let_def)
    with n(4) show False by simp
  qed
  have 5: "\<not> fakeAbsent j g"
    using n(5) absent_setEvidence_absent [of j e]
    by (auto simp: fakeAbsent_def split: option.splits)
  from 1 2 3 4 5 show ?thesis by (simp add: isPossible_def)
qed

text \<open>
  Claim C8, as amended. Setting an evidence that is not \<^verbatim>\<open>PRESENT\<close> to
  \<^verbatim>\<open>ABSENT\<close> never adds a ghost: the names returned afterwards are among those
  returned before, whether or not the evidence belongs to every ghost still possible.
\<close>

theorem absent_never_grows:
  assumes "evidences j e \<noteq> PRESENT"
  shows "set (possibleGhosts (setEvidence e ABSENT j)) \<subseteq> set (possibleGhosts j)"
  using isPossible_setEvidence_absent [OF assms]
  by (auto simp: possibleGhosts_def)

theorem absent_never_grows_witness:
  "evidences orbFound Freezing \<noteq> PRESENT \<and>
   set (possibleGhosts (setEvidence Freezing ABSENT orbFound)) \<subseteq> set (possibleGhosts orbFound) \<and>
   ''Hantu'' \<in> set (possibleGhosts orbFound) \<and>
   ''Hantu'' \<notin> set (possibleGhosts (setEvidence Freezing ABSENT orbFound))"
proof -
  have h: "evidences orbFound Freezing \<noteq> PRESENT"
    by (simp add: orbFound_def setEvidence_def newJournal_def Journal_new_def initialState_def)
  have 1: "''Hantu'' \<in> set (possibleGhosts orbFound)" by code_simp
  have 2: "''Hantu'' \<notin> set (possibleGhosts (setEvidence Freezing ABSENT orbFound))" by code_simp
  from absent_never_grows [OF h] h 1 2 show ?thesis by blast
qed

text \<open>
  The claim as stated fails for an evidence that was \<^verbatim>\<open>PRESENT\<close>: with only EMF
  found, EMF belongs to every ghost still possible; once EMF is absent, the ghosts without
  EMF are returned, none of which was returned before.
\<close>

theorem absent_can_grow_counterexample:
  "evidences emfFound Emf = PRESENT \<and> belongsToEveryCandidate Emf emfFound \<and>
   possibleGhosts emfFound \<noteq> [] \<and>
   ''Phantom'' \<in> set (possibleGhosts (setEvidence Emf ABSENT emfFound)) \<and>
   ''Phantom'' \<notin> set (possibleGhosts emfFound) \<and>
   \<not> set (possibleGhosts (setEvidence Emf ABSENT emfFound)) \<subseteq> set (possibleGhosts emfFound)"
proof -
  have 1: "evidences emfFound Emf = PRESENT" by (simp add: emfFound_def setEvidence_def)
  have 2: "belongsToEveryCandidate Emf emfFound" by code_simp
  have 3: "possibleGhosts emfFound \<noteq> []" by code_simp
  have 4: "''Phantom'' \<in> set (possibleGhosts (setEvidence Emf ABSENT emfFound))" by code_simp
  have 5: "''Phantom'' \<notin> set (possibleGhosts emfFound)" by code_simp
  from 4 5 have 6: "\<not> set (possibleGhosts (setEvidence Emf ABSENT emfFound))
                      \<subseteq> set (possibleGhosts emfFound)" by blast
  from 1 2 3 4 5 6 show ?thesis by blast
qed

section \<open>Properties of \<^verbatim>\<open>asComponents\<close>\<close>

lemma length_buttons: "length (buttons j) = 7"
  by (simp add: buttons_def EVIDENCE_IDS_def)

lemma chunk_buttons:
  "chunk (buttons j) (nat MAX_BUTTONS_PER_ACTION_ROW) = [take 5 (buttons j), drop 5 (buttons j)]"
proof -
  have 1: "chunk (buttons j) 5 = take 5 (buttons j) # chunk (drop 5 (buttons j)) 5"
    using length_buttons [of j] by (subst chunk.simps) auto
  have 2: "chunk (drop 5 (buttons j)) 5 =
           take 5 (drop 5 (buttons j)) # chunk (drop 5 (drop 5 (buttons j))) 5"
    using length_buttons [of j] by (subst chunk.simps) auto
  have 3: "chunk (drop 5 (drop 5 (buttons j))) 5 = []"
    using length_buttons [of j] by (subst chunk.simps) auto
  have 4: "take 5 (drop 5 (buttons j)) = drop 5 (buttons j)"
    using length_buttons [of j] by simp
  from 1 2 3 4 show ?thesis by (simp add: MAX_BUTTONS_PER_ACTION_ROW_def)
qed

lemma asComponents_cases:
  "asComponents j = Inl TypeError \<or>
   (\<exists>opts. asComponents j =
      Inr [[StringSelect ''evidence_count'' ''Evidence count'' opts],
           take 5 (buttons j), drop 5 (buttons j)])"
  by (simp add: asComponents_def chunk_buttons MAX_ACTION_ROWS_PER_MESSAGE_def Let_def
      split: option.splits)

lemma asComponents_in_range:
  assumes "availableEvidences j \<in> {Num 1, Num 2, Num 3}"
  shows "asComponents j \<noteq> Inl TypeError"
  using assms
  by (auto simp: asComponents_def evidenceCountOptions_def MAX_EVIDENCES_def Let_def
      split: option.splits)

text \<open>
  Claim C10. \<^verbatim>\<open>asComponents\<close> never takes the branch that throws "Too many rows"; and
  when the number of available evidences is 1, 2 or 3 it throws nothing and returns exactly
  three action rows, which is within the limit of five: the select menu, five buttons, and
  the two buttons left.
\<close>

theorem asComponents_three_rows:
  "asComponents j \<noteq> Inl TooManyRows \<and>
   (availableEvidences j \<in> {Num 1, Num 2, Num 3} \<longrightarrow>
      (\<exists>rows. asComponents j = Inr rows \<and> length rows = 3 \<and>
         int (length rows) \<le> MAX_ACTION_ROWS_PER_MESSAGE \<and> map length rows = [1, 5, 2]))"
proof -
  have 1: "asComponents j \<noteq> Inl TooManyRows"
    using asComponents_cases [of j] by auto
  have 2: "\<exists>rows. asComponents j = Inr rows \<and> length rows = 3 \<and>
         int (length rows) \<le> MAX_ACTION_ROWS_PER_MESSAGE \<and> map length rows = [1, 5, 2]"
    if "availableEvidences j \<in> {Num 1, Num 2, Num 3}"
  proof -
    from that asComponents_in_range asComponents_cases [of j]
    obtain opts where "asComponents j =
      Inr [[StringSelect ''evidence_count'' ''Evidence count'' opts],
           take 5 (buttons j), drop 5 (buttons j)]" by blast
    then show ?thesis
      using length_buttons [of j] by (simp add: MAX_ACTION_ROWS_PER_MESSAGE_def)
  qed
  from 1 2 show ?thesis by blast
qed

theorem asComponents_three_rows_witness:
  "availableEvidences newJournal \<in> {Num 1, Num 2, Num 3} \<and>
   (\<exists>rows. asComponents newJournal = Inr rows \<and> length rows = 3 \<and>
       map length rows = [1, 5, 2])"
proof -
  have h: "availableEvidences newJournal \<in> {Num 1, Num 2, Num 3}"
    by (simp add: newJournal_def Journal_new_def)
  from asComponents_three_rows [of newJournal] h
  obtain rows where "asComponents newJournal = Inr rows" "length rows = 3"
    "map length rows = [1, 5, 2]" by auto
  with h show ?thesis by auto
qed

section \<open>Properties of the command context\<close>

lemma journal_terminate: "journal (fst (terminate c)) = journal c"
  by (simp add: terminate_def)

lemma journal_updateMessage: "journal (fst (updateMessage c update)) = journal c"
  by (simp add: updateMessage_def makeEmbed_def journal_terminate
      split: option.splits sum.splits outcome.splits)

text \<open>
  Claim C6. The button handler turns \<^verbatim>\<open>ABSENT\<close> into \<^verbatim>\<open>INDEFINITE\<close>,
  \<^verbatim>\<open>INDEFINITE\<close> into \<^verbatim>\<open>PRESENT\<close> and \<^verbatim>\<open>PRESENT\<close> into
  \<^verbatim>\<open>ABSENT\<close>, so three presses of the same button give back the state, and the
  journal, that they started from; the handler writes exactly this to the journal of the
  context.
\<close>

theorem toggle_cycle:
  "nextState ABSENT = INDEFINITE \<and> nextState INDEFINITE = PRESENT \<and>
   nextState PRESENT = ABSENT \<and>
   nextState (nextState (nextState s)) = s \<and>
   toggle e (toggle e (toggle e j)) = j \<and>
   evidences (toggle e j) = (evidences j)(e := nextState (evidences j e)) \<and>
   availableEvidences (toggle e j) = availableEvidences j \<and>
   journal (fst (onButton now ctx e update)) = map_option (toggle e) (journal ctx)"
proof -
  have 3: "nextState (nextState (nextState x)) = x" for x
    by (cases x) (simp_all add: nextState_def)
  have t: "toggle e (toggle e (toggle e j)) = j"
    by (simp add: toggle_def setEvidence_def 3)
  have n: "nextState ABSENT = INDEFINITE \<and> nextState INDEFINITE = PRESENT \<and>
           nextState PRESENT = ABSENT"
    by (simp add: nextState_def)
  have v: "evidences (toggle e j) = (evidences j)(e := nextState (evidences j e)) \<and>
           availableEvidences (toggle e j) = availableEvidences j"
    by (simp add: toggle_def setEvidence_def)
  have b: "journal (fst (onButton now ctx e update)) = map_option (toggle e) (journal ctx)"
    by (simp add: onButton_def journal_updateMessage refreshTimeout_def)
  from 3 t n v b show ?thesis by simp
qed

lemma activeContext_eq:
  "activeContext =
     \<lparr>allowedUserIDs = Some [''alice'', ''bob''], journal = Some newJournal, message = True,
      collectors = Some True, idleTimeout = Some 3600000, terminated = False\<rparr>"
proof -
  have "asComponents newJournal \<noteq> Inl TypeError"
    by (rule asComponents_in_range) (simp add: newJournal_def Journal_new_def)
  with asComponents_cases [of newJournal]
  obtain rows where "asComponents newJournal = Inr rows" by auto
  then show ?thesis
    by (simp add: activeContext_def CommandContext_new_def emptyContext_def makeEmbed_def
        IDLE_TIME_def)
qed

text \<open>
  Claim C7. While the collectors collect, an interaction of a user who is not among the
  allowed users is answered with the notice that the user was not invited, and nothing else
  happens: the context, with every evidence state, the number of available evidences and
  the idle timer, is the one before it, and no update of the message is sent.
\<close>

theorem unauthorized_actor_rejected:
  assumes "collectors ctx = Some True"
    and "allowedUserIDs ctx = Some ids"
    and "user i \<notin> set ids"
  shows "collect now ctx i update =
           (ctx, [ReplyEphemeral ''You were not invited to use this journal.''], None)"
  using assms by (simp add: collect_def interactionFilter_def canInteract_def)

theorem unauthorized_actor_rejected_witness:
  "collectors activeContext = Some True \<and>
   allowedUserIDs activeContext = Some [''alice'', ''bob''] \<and>
   user (ButtonInteraction ''mallory'' Emf) \<notin> set [''alice'', ''bob''] \<and>
   collect 5 activeContext (ButtonInteraction ''mallory'' Emf) Resolved =
     (activeContext, [ReplyEphemeral ''You were not invited to use this journal.''], None)"
proof -
  have c: "collectors activeContext = Some True" by (simp add: activeContext_eq)
  have a: "allowedUserIDs activeContext = Some [''alice'', ''bob'']"
    by (simp add: activeContext_eq)
  have u: "user (ButtonInteraction ''mallory'' Emf) \<notin> set [''alice'', ''bob'']" by simp
  from unauthorized_actor_rejected [OF c a u] c a u show ?thesis by blast
qed

lemma menu_values:
  "map optionValue evidenceCountOptions = [''3'', ''2'', ''1''] \<and>
   parseFirst [''3''] = Num 3 \<and> parseFirst [''2''] = Num 2 \<and> parseFirst [''1''] = Num 1"
  by (simp add: evidenceCountOptions_def parseFirst_def parseInt_def isWhiteSpace_def
      isDigit_def digitValue_def digitsValue_def)

text \<open>
  Claim C5, as amended. The handler of the select menu does not check the value it is
  given: for an allowed user it overwrites the number of available evidences of the journal
  with \<^verbatim>\<open>parseInt\<close> of the first value, whatever it is, and leaves the evidence states
  as they are. The menu offers the values "3", "2" and "1" only, which are parsed to 3, 2
  and 1.
\<close>

theorem ceiling_change_unvalidated:
  assumes "collectors ctx = Some True"
    and "allowedUserIDs ctx = Some ids"
    and "u \<in> set ids"
    and "journal ctx = Some j"
  shows "journal (fst (collect now ctx (StringSelectInteraction u vs) update)) =
           Some (j\<lparr>availableEvidences := parseFirst vs\<rparr>) \<and>
         map optionValue evidenceCountOptions = [''3'', ''2'', ''1''] \<and>
         parseFirst [''3''] = Num 3 \<and> parseFirst [''2''] = Num 2 \<and> parseFirst [''1''] = Num 1"
proof -
  have "journal (fst (collect now ctx (StringSelectInteraction u vs) update)) =
           Some (j\<lparr>availableEvidences := parseFirst vs\<rparr>)"
    using assms
    by (simp add: collect_def interactionFilter_def canInteract_def onSelect_def
        journal_updateMessage refreshTimeout_def setAvailable_def split: prod.splits)
  with menu_values show ?thesis by simp
qed

theorem ceiling_change_unvalidated_witness:
  "collectors activeContext = Some True \<and>
   allowedUserIDs activeContext = Some [''alice'', ''bob''] \<and>
   ''alice'' \<in> set [''alice'', ''bob''] \<and>
   journal activeContext = Some newJournal \<and>
   journal (fst (collect 5 activeContext (StringSelectInteraction ''alice'' [''2'']) Resolved)) =
     Some (newJournal\<lparr>availableEvidences := Num 2\<rparr>)"
proof -
  have c: "collectors activeContext = Some True" by (simp add: activeContext_eq)
  have a: "allowedUserIDs activeContext = Some [''alice'', ''bob'']"
    by (simp add: activeContext_eq)
  have u: "''alice'' \<in> set [''alice'', ''bob'']" by simp
  have j: "journal activeContext = Some newJournal" by (simp add: activeContext_eq)
  from ceiling_change_unvalidated [OF c a u j, of 5 "[''2'']" Resolved] c a u j
  show ?thesis by simp
qed

lemma parseFirst_4: "parseFirst [''4''] = Num 4"
  by (simp add: parseFirst_def parseInt_def isWhiteSpace_def
      isDigit_def digitValue_def digitsValue_def)

text \<open>
  The claim as stated fails: the value "4" from an allowed user is written to the journal,
  where 3 was before, and building the components for it then throws.
\<close>

theorem ceiling_out_of_range_counterexample:
  "collectors activeContext = Some True \<and>
   allowedUserIDs activeContext = Some [''alice'', ''bob''] \<and>
   map_option availableEvidences (journal activeContext) = Some (Num 3) \<and>
   parseFirst [''4''] = Num 4 \<and>
   map_option availableEvidences
     (journal (fst (collect 5 activeContext (StringSelectInteraction ''alice'' [''4'']) Resolved)))
     = Some (Num 4) \<and>
   snd (collect 5 activeContext (StringSelectInteraction ''alice'' [''4'']) Resolved) =
     ([], Some TypeError)"
proof -
  have c: "collectors activeContext = Some True" by (simp add: activeContext_eq)
  have a: "allowedUserIDs activeContext = Some [''alice'', ''bob'']"
    by (simp add: activeContext_eq)
  have j: "map_option availableEvidences (journal activeContext) = Some (Num 3)"
    by (simp add: activeContext_eq newJournal_def Journal_new_def)
  have t: "asComponents (setAvailable (Num 4) newJournal) = Inl TypeError"
    by (simp add: asComponents_def setAvailable_def newJournal_def Journal_new_def MAX_EVIDENCES_def
        evidenceCountOptions_def)
  have r: "collect 5 activeContext (StringSelectInteraction ''alice'' [''4'']) Resolved =
     (activeContext\<lparr>journal := Some (setAvailable (Num 4) newJournal),
                    idleTimeout := Some 3600005\<rparr>, [], Some TypeError)"
    by (simp add: activeContext_eq collect_def interactionFilter_def canInteract_def
        onSelect_def refreshTimeout_def updateMessage_def makeEmbed_def parseFirst_4 t
        IDLE_TIME_def)
  from c a j r show ?thesis by (simp add: parseFirst_4 setAvailable_def)
qed

text \<open>
  Claim C4, at the input where the code departs from it. When the reply that carries the
  journal is rejected, or the fetch of the replied message is, the constructor leaves the
  context not terminated: nothing is thrown, and there are no collectors and no timer that
  could terminate it later.
\<close>

theorem initial_reply_failure_not_terminated:
  "\<not> terminated (fst (CommandContext_new now invoker additionalUsers True Rejected fetch)) \<and>
   \<not> terminated (fst (CommandContext_new now invoker additionalUsers True reply Rejected)) \<and>
   collectors (fst (CommandContext_new now invoker additionalUsers True Rejected fetch)) = None \<and>
   idleTimeout (fst (CommandContext_new now invoker additionalUsers True Rejected fetch)) = None \<and>
   snd (snd (CommandContext_new now invoker additionalUsers True Rejected fetch)) = None"
proof -
  have "asComponents newJournal \<noteq> Inl TypeError"
    by (rule asComponents_in_range) (simp add: newJournal_def Journal_new_def)
  with asComponents_cases [of newJournal]
  obtain rows where "asComponents newJournal = Inr rows" by auto
  then show ?thesis
    by (simp add: CommandContext_new_def emptyContext_def makeEmbed_def)
qed

text \<open>The other path of the claim: an update that the platform rejects terminates the context.\<close>

lemma update_rejected_terminates:
  assumes "journal ctx = Some j" and "asComponents j = Inr rows"
  shows "terminated (fst (updateMessage ctx Rejected))"
  using assms by (simp add: updateMessage_def makeEmbed_def terminate_def)

end
